theory Spec2Isabelle
  imports Main "HOL-Library.Sublist"
begin

section \<open>Python strings\<close>

text \<open>
  A Python \<open>str\<close> is modelled as a HOL \<open>string\<close>; each \<open>char\<close> is read as the code
  point of the same number, so that the strings of the model are the Python strings over
  the code points 0 to 255. The character classes below are those of Python 3 on that
  range. \<open>str.isspace\<close>, \<open>str.strip\<close>, \<open>str.split\<close> and the \<open>\s\<close> of \<open>re\<close> agree on
  whitespace: the ASCII blanks, the separators 0x1C to 0x1F, the next-line character 0x85
  and the no-break space 0xA0.
\<close>

definition isspace :: "char \<Rightarrow> bool" where
  "isspace c =
     (let n = (of_char c :: nat)
      in (9 \<le> n \<and> n \<le> 13) \<or> (28 \<le> n \<and> n \<le> 32) \<or> n = 133 \<or> n = 160)"

text \<open>
  The class of \<open>str.isdigit\<close>: the decimal digits and the superscript digits 0xB2, 0xB3
  and 0xB9.
\<close>

definition isdigit :: "char \<Rightarrow> bool" where
  "isdigit c =
     (let n = (of_char c :: nat) in (48 \<le> n \<and> n \<le> 57) \<or> n = 178 \<or> n = 179 \<or> n = 185)"

text \<open>
  The class \<^verbatim>\<open>[0-9]\<close>, which is also the \<open>\d\<close> of \<open>re\<close> on this range: the superscript
  digits are no decimal digits.
\<close>

definition ascii_digit :: "char \<Rightarrow> bool" where
  "ascii_digit c = (let n = (of_char c :: nat) in 48 \<le> n \<and> n \<le> 57)"

text \<open>The classes \<^verbatim>\<open>[A-Z]\<close>, \<^verbatim>\<open>[a-z]\<close> and \<^verbatim>\<open>[a-zA-Z]\<close>.\<close>

definition ascii_upper :: "char \<Rightarrow> bool" where
  "ascii_upper c = (let n = (of_char c :: nat) in 65 \<le> n \<and> n \<le> 90)"

definition ascii_lower :: "char \<Rightarrow> bool" where
  "ascii_lower c = (let n = (of_char c :: nat) in 97 \<le> n \<and> n \<le> 122)"

definition ascii_letter :: "char \<Rightarrow> bool" where
  "ascii_letter c = (ascii_upper c \<or> ascii_lower c)"

text \<open>
  \<open>\w\<close> of \<open>re\<close>, used by the word boundary \<open>\b\<close>: the underscore and the alphanumeric
  characters, which above ASCII are 0xAA, 0xB2, 0xB3, 0xB5, 0xB9, 0xBA, 0xBC to 0xBE and
  the letters from 0xC0 on, without the signs 0xD7 and 0xF7.
\<close>

definition isword :: "char \<Rightarrow> bool" where
  "isword c =
     (let n = (of_char c :: nat)
      in ascii_letter c \<or> ascii_digit c \<or> n = 95 \<or> n = 170 \<or> n = 178 \<or> n = 179 \<or> n = 181
         \<or> n = 185 \<or> n = 186 \<or> (188 \<le> n \<and> n \<le> 190) \<or> (192 \<le> n \<and> n \<le> 214)
         \<or> (216 \<le> n \<and> n \<le> 246) \<or> 248 \<le> n)"

text \<open>
  The characters that \<open>str.lower\<close> changes: the capital letters of ASCII and those from
  0xC0 to 0xDE without the sign 0xD7; each moves up by 32.
\<close>

definition has_lower :: "char \<Rightarrow> bool" where
  "has_lower c =
     (let n = (of_char c :: nat)
      in (65 \<le> n \<and> n \<le> 90) \<or> (192 \<le> n \<and> n \<le> 214) \<or> (216 \<le> n \<and> n \<le> 222))"

definition lower_char :: "char \<Rightarrow> char" where
  "lower_char c = (if has_lower c then char_of (of_char c + (32::nat)) else c)"

text \<open>\<open>s.lower()\<close>\<close>

definition lower :: "string \<Rightarrow> string" where
  "lower s = map lower_char s"

text \<open>\<open>s.strip()\<close>: leading and trailing whitespace removed.\<close>

definition strip :: "string \<Rightarrow> string" where
  "strip s = rev (dropWhile isspace (rev (dropWhile isspace s)))"

text \<open>\<open>sub in s\<close>: \<open>sub\<close> occurs in \<open>s\<close> as a contiguous substring.\<close>

fun contains :: "string \<Rightarrow> string \<Rightarrow> bool" where
  "contains sub [] = (sub = [])"
| "contains sub (c # cs) = (prefix sub (c # cs) \<or> contains sub cs)"

text \<open>\<open>s.isdigit()\<close>: false on the empty string.\<close>

definition str_isdigit :: "string \<Rightarrow> bool" where
  "str_isdigit s = (s \<noteq> [] \<and> list_all isdigit s)"

text \<open>\<open>int(s)\<close> on a string of the decimal digits 0 to 9.\<close>

definition digit_val :: "char \<Rightarrow> int" where
  "digit_val c = of_char c - 48"

definition int_of_digits :: "string \<Rightarrow> int" where
  "int_of_digits s = foldl (\<lambda>acc c. 10 * acc + digit_val c) 0 s"

text \<open>\<open>sep.join(parts)\<close>\<close>

fun join :: "string \<Rightarrow> string list \<Rightarrow> string" where
  "join sep [] = []"
| "join sep [p] = p"
| "join sep (p # q # ps) = p @ sep @ join sep (q # ps)"

text \<open>\<open>s.split(c)\<close> for a one-character separator: never empty, keeps empty pieces.\<close>

fun split_on :: "char \<Rightarrow> string \<Rightarrow> string list" where
  "split_on c [] = [] # []"
| "split_on c (x # xs) =
     (if x = c then [] # split_on c xs
      else (case split_on c xs of [] \<Rightarrow> [x] # [] | p # ps \<Rightarrow> (x # p) # ps))"

text \<open>\<open>s.split()\<close>: the maximal runs of non-whitespace characters.\<close>

fun split_ws_acc :: "string \<Rightarrow> string \<Rightarrow> string list" where
  "split_ws_acc cur [] = (if cur = [] then [] else [rev cur])"
| "split_ws_acc cur (x # xs) =
     (if isspace x then (if cur = [] then split_ws_acc [] xs else rev cur # split_ws_acc [] xs)
      else split_ws_acc (x # cur) xs)"

definition split_ws :: "string \<Rightarrow> string list" where
  "split_ws s = split_ws_acc [] s"

definition nl :: string where
  "nl = [char_of (10::nat)]"

definition apos :: string where
  "apos = [CHR 0x27]"

definition dq :: string where
  "dq = [CHR 0x22]"

section \<open>Regular expressions\<close>

text \<open>
  The patterns of the program are sequences of character classes with greedy bounded
  repetition, the word boundary \<open>\b\<close> and the anchors \<open>^\<close> and \<open>$\<close>. \<open>rmatch\<close> is the
  backtracking matcher of \<open>re\<close> on such a sequence, anchored at the current position:
  each repetition first takes as many characters as it can and gives them back one at a
  time until the rest of the pattern matches. It returns the number of characters each
  item consumed. \<open>prev\<close> is the character before the current position, \<open>None\<close> at the
  start of the string.
\<close>

datatype item = Cls "char \<Rightarrow> bool" nat "nat option" | WordB | Caret | Dollar

abbreviation Lit :: "char \<Rightarrow> item" where
  "Lit c \<equiv> Cls (\<lambda>x. x = c) 1 (Some 1)"

fun try_down :: "(nat \<Rightarrow> 'a option) \<Rightarrow> nat \<Rightarrow> nat \<Rightarrow> 'a option" where
  "try_down f lo 0 = (if lo = 0 then f 0 else None)"
| "try_down f lo (Suc k) =
     (if Suc k < lo then None
      else (case f (Suc k) of Some r \<Rightarrow> Some r | None \<Rightarrow> try_down f lo k))"

definition word_at :: "char option \<Rightarrow> bool" where
  "word_at c = (case c of None \<Rightarrow> False | Some x \<Rightarrow> isword x)"

definition next_char :: "string \<Rightarrow> char option" where
  "next_char s = (case s of [] \<Rightarrow> None | x # _ \<Rightarrow> Some x)"

primrec rmatch :: "item list \<Rightarrow> char option \<Rightarrow> string \<Rightarrow> nat list option" where
  "rmatch [] = (\<lambda>prev s. Some [])"
| "rmatch (it # its) = (\<lambda>prev s.
     (case it of
        Cls p lo hi \<Rightarrow>
          (let run = length (takeWhile p s);
               n = (case hi of None \<Rightarrow> run | Some h \<Rightarrow> min h run)
           in try_down
                (\<lambda>k. map_option ((#) k)
                       (rmatch its (if k = 0 then prev else Some (s ! (k - 1))) (drop k s)))
                lo n)
      | WordB \<Rightarrow>
          (if word_at prev \<noteq> word_at (next_char s)
           then map_option ((#) 0) (rmatch its prev s) else None)
      | Caret \<Rightarrow> (if prev = None then map_option ((#) 0) (rmatch its prev s) else None)
      | Dollar \<Rightarrow>
          (if s = [] \<or> s = nl then map_option ((#) 0) (rmatch its prev s) else None)))"

text \<open>\<open>re.match(pattern, s)\<close>: a match at the start of the string.\<close>

definition re_match :: "item list \<Rightarrow> string \<Rightarrow> nat list option" where
  "re_match its s = rmatch its None s"

text \<open>
  \<open>re.search(pattern, s)\<close>: the leftmost match, as the offset of its start and the
  lengths of its items.
\<close>

fun rsearch :: "item list \<Rightarrow> char option \<Rightarrow> string \<Rightarrow> (nat \<times> nat list) option" where
  "rsearch its prev [] = map_option (Pair 0) (rmatch its prev [])"
| "rsearch its prev (c # cs) =
     (case rmatch its prev (c # cs) of
        Some ls \<Rightarrow> Some (0, ls)
      | None \<Rightarrow> map_option (\<lambda>(i, ls). (Suc i, ls)) (rsearch its (Some c) cs))"

definition re_search :: "item list \<Rightarrow> string \<Rightarrow> (nat \<times> nat list) option" where
  "re_search its s = rsearch its None s"

text \<open>
  \<open>re.findall(pattern, s)\<close> for a pattern without groups lists the matched substrings
  from left to right. The program only tests the list for emptiness and reads its first
  element, which is the text of the leftmost match.
\<close>

definition findall_first :: "item list \<Rightarrow> string \<Rightarrow> string option" where
  "findall_first its s =
     map_option (\<lambda>(i, ls). take (sum_list ls) (drop i s)) (re_search its s)"

section \<open>Field validators (tools.py)\<close>

datatype validation = Valid string | Invalid string

text \<open>The pattern \<^verbatim>\<open>^[a-zA-Z\s\.\-\']+$\<close>.\<close>

definition name_char :: "char \<Rightarrow> bool" where
  "name_char c =
     (ascii_letter c \<or> isspace c \<or> c = CHR ''.'' \<or> c = CHR ''-'' \<or> c = CHR 0x27)"

definition name_pattern :: "item list" where
  "name_pattern = [Caret, Cls name_char 1 None, Dollar]"

definition validate_name :: "string \<Rightarrow> validation" where
  "validate_name name =
     (if name = [] \<or> length (strip name) < 2
      then Invalid ''Name must be at least 2 characters long and non-empty.''
      else if re_match name_pattern name = None
      then Invalid ''Name can only contain letters, spaces, and basic punctuation.''
      else Valid (strip name))"

text \<open>
  The class \<^verbatim>\<open>[\s\-\(\)\+]\<close>; \<open>re.sub\<close> of a one-character class by the empty
  string deletes exactly the characters of the class.
\<close>

definition phone_sep :: "char \<Rightarrow> bool" where
  "phone_sep c =
     (isspace c \<or> c = CHR ''-'' \<or> c = CHR ''('' \<or> c = CHR '')'' \<or> c = CHR ''+'')"

definition validate_phone :: "string \<Rightarrow> validation" where
  "validate_phone phone =
     (let cleaned_phone = filter (\<lambda>c. \<not> phone_sep c) phone in
      if \<not> str_isdigit cleaned_phone
      then Invalid ''Phone number must contain only digits.''
      else if length cleaned_phone < 10 \<or> length cleaned_phone > 15
      then Invalid ''Phone number must be between 10 and 15 digits.''
      else Valid cleaned_phone)"

text \<open>
  \<open>validate_email\<close> of the \<open>email_validator\<close> package is an external collaborator: it
  either returns the normalised address or raises \<open>EmailNotValidError\<close> with a message.
\<close>

type_synonym email_checker = "string \<Rightarrow> string + string"

definition validate_email_address :: "email_checker \<Rightarrow> string \<Rightarrow> validation" where
  "validate_email_address validate_email email =
     (case validate_email email of
        Inr normalized \<Rightarrow> Valid normalized
      | Inl e \<Rightarrow> Invalid (''Invalid email format: '' @ e))"

section \<open>Date resolver (tools.py)\<close>

datatype exn = OverflowError | ParserError | ServiceError string

text \<open>
  A \<open>datetime\<close> is its proleptic Gregorian ordinal (day 1 is 0001-01-01, a Monday) and
  the time of day in microseconds. Dates run from ordinal 1 to 3652059 (9999-12-31);
  \<open>datetime + timedelta(days=n)\<close> raises \<open>OverflowError\<close> outside that range, and
  \<open>timedelta(days=n)\<close> itself raises it when \<open>n\<close> exceeds 999999999 in magnitude.
\<close>

record datetime =
  ordinal :: int
  clock :: nat

definition MAXORDINAL :: int where
  "MAXORDINAL = 3652059"

definition is_datetime :: "datetime \<Rightarrow> bool" where
  "is_datetime d = (1 \<le> ordinal d \<and> ordinal d \<le> MAXORDINAL)"

definition weekday :: "datetime \<Rightarrow> int" where
  "weekday d = (ordinal d + 6) mod 7"

definition plus_days :: "datetime \<Rightarrow> int \<Rightarrow> exn + datetime" where
  "plus_days d n =
     (if \<bar>n\<bar> > 999999999 then Inl OverflowError
      else if ordinal d + n < 1 \<or> ordinal d + n > MAXORDINAL then Inl OverflowError
      else Inr (d\<lparr>ordinal := ordinal d + n\<rparr>))"

text \<open>
  The clock, the fuzzy parser of \<open>dateutil\<close> (\<open>parser.parse(text, fuzzy=True)\<close>),
  \<open>strftime\<close> and the email checker are external collaborators of the program.
\<close>

record env =
  now :: datetime
  parse_fuzzy :: "string \<Rightarrow> exn + datetime"
  strftime :: "string \<Rightarrow> datetime \<Rightarrow> string"
  validate_email :: email_checker

text \<open>The days to add to reach weekday \<open>target\<close> (Monday is 0), as each branch computes them.\<close>

definition days_ahead :: "int \<Rightarrow> datetime \<Rightarrow> int" where
  "days_ahead target today =
     (let d = target - weekday today in if d \<le> 0 then d + 7 else d)"

text \<open>The pattern \<^verbatim>\<open>in\s+(\d+)\s+days?\<close>; item 3 is the group.\<close>

definition in_days_pattern :: "item list" where
  "in_days_pattern =
     [Lit CHR ''i'', Lit CHR ''n'', Cls isspace 1 None, Cls ascii_digit 1 None, Cls isspace 1 None,
      Lit CHR ''d'', Lit CHR ''a'', Lit CHR ''y'', Cls (\<lambda>x. x = CHR ''s'') 0 (Some 1)]"

definition group1 :: "string \<Rightarrow> nat \<times> nat list \<Rightarrow> string" where
  "group1 s m = (case m of (i, ls) \<Rightarrow> take (ls ! 3) (drop (i + sum_list (take 3 ls)) s))"

text \<open>The body of the \<open>try\<close> block up to the computation of \<open>target_date\<close>.\<close>

definition target_date :: "env \<Rightarrow> string \<Rightarrow> exn + datetime" where
  "target_date e date_text =
     (let date_text_lower = strip (lower date_text);
          today = now e
      in
      if date_text_lower = ''today'' then Inr today
      else if date_text_lower = ''tomorrow'' then plus_days today 1
      else if contains ''next week'' date_text_lower then plus_days today 7
      else if contains ''next month'' date_text_lower then plus_days today 30
      else if contains ''next monday'' date_text_lower \<or> contains ''coming monday'' date_text_lower
      then plus_days today (days_ahead 0 today)
      else if contains ''next tuesday'' date_text_lower \<or> contains ''coming tuesday'' date_text_lower
      then plus_days today (days_ahead 1 today)
      else if contains ''next wednesday'' date_text_lower
              \<or> contains ''coming wednesday'' date_text_lower
      then plus_days today (days_ahead 2 today)
      else if contains ''next thursday'' date_text_lower
              \<or> contains ''coming thursday'' date_text_lower
      then plus_days today (days_ahead 3 today)
      else if contains ''next friday'' date_text_lower \<or> contains ''coming friday'' date_text_lower
      then plus_days today (days_ahead 4 today)
      else if contains ''next saturday'' date_text_lower
              \<or> contains ''coming saturday'' date_text_lower
      then plus_days today (days_ahead 5 today)
      else if contains ''next sunday'' date_text_lower \<or> contains ''coming sunday'' date_text_lower
      then plus_days today (days_ahead 6 today)
      else if contains ''in'' date_text_lower \<and> contains ''day'' date_text_lower
      then (case re_search in_days_pattern date_text_lower of
              Some m \<Rightarrow> plus_days today (int_of_digits (group1 date_text_lower m))
            | None \<Rightarrow> parse_fuzzy e date_text)
      else parse_fuzzy e date_text)"

datatype date_result = DateValid string string | DateInvalid string

definition extract_date_from_natural_language :: "env \<Rightarrow> string \<Rightarrow> date_result" where
  "extract_date_from_natural_language e date_text =
     (case target_date e date_text of
        Inr t \<Rightarrow> DateValid (strftime e ''%Y-%m-%d'' t) (strftime e ''%B %d, %Y'' t)
      | Inl _ \<Rightarrow>
          DateInvalid (''Could not parse date from '' @ apos @ date_text @ apos
            @ ''. Please try formats like '' @ apos @ ''next Monday'' @ apos @ '', ''
            @ apos @ ''tomorrow'' @ apos @ '', '' @ apos @ ''in 3 days'' @ apos @ '', or ''
            @ apos @ ''YYYY-MM-DD'' @ apos @ ''.''))"

section \<open>The text-completion service\<close>

text \<open>
  \<open>llm.invoke(prompt)\<close> either returns text or raises. The service is a function of the
  prompts it has received so far and of the current prompt; every call is recorded in the
  log that the operations thread through.
\<close>

type_synonym llm = "string list \<Rightarrow> string \<Rightarrow> exn + string"

definition invoke :: "llm \<Rightarrow> string list \<Rightarrow> string \<Rightarrow> (exn + string) \<times> string list" where
  "invoke svc log prompt = (svc log prompt, log @ [prompt])"

section \<open>Document query bridge (tools.py)\<close>

definition extraction_prompt :: "string \<Rightarrow> string \<Rightarrow> string" where
  "extraction_prompt documents_content query =
     nl
      @ ''        You are an intelligent document assistant. '' @ nl
      @ ''        Your task is to extract and return ONLY the relevant information from the document that answers the user'' @ apos @ ''s query.'' @ nl
      @ nl
      @ ''        Document Content:'' @ nl
      @ ''        '' @ documents_content @ nl
      @ ''        '' @ nl
      @ ''        User Query: '' @ query @ nl
      @ ''        '' @ nl
      @ ''        Instructions:'' @ nl
      @ ''        1. Carefully read and understand the user'' @ apos @ ''s query'' @ nl
      @ ''        2. Search through the entire document for information that is semantically related to the query'' @ nl
      @ ''        3. Extract ALL relevant sections, paragraphs, or details that answer the query'' @ nl
      @ ''        4. If multiple pieces of information are relevant, include them all'' @ nl
      @ ''        5. Preserve the original text structure and details (prices, timelines, contact info, etc.)'' @ nl
      @ ''        6. If no relevant information is found, respond with: '' @ dq @ ''No relevant information found'' @ dq @ nl
      @ ''        '' @ nl
      @ ''        Return only the extracted relevant information without adding explanations or commentary.'' @ nl"

definition no_documents_message :: string where
  "no_documents_message = ''No documents available to query. Please upload documents first.''"

definition no_relevant_message :: string where
  "no_relevant_message = ''No relevant information found in the documents for your query.''"

definition query_documents :: "llm \<Rightarrow> string list \<Rightarrow> string \<Rightarrow> string \<Rightarrow> string \<times> string list" where
  "query_documents svc log query documents_content =
     (if documents_content = [] then (no_documents_message, log)
      else
        (case invoke svc log (extraction_prompt documents_content query) of
           (Inr out, log') \<Rightarrow>
             (let relevant_info = strip out in
              if contains ''no relevant information found'' (lower relevant_info)
                 \<and> length relevant_info < 100
              then (no_relevant_message, log')
              else (relevant_info, log'))
         | (Inl _, log') \<Rightarrow>
             (let query_lower = lower query;
                  lines = split_on (char_of (10::nat)) documents_content;
                  relevant_lines =
                    filter (\<lambda>line. list_ex (\<lambda>word. contains word (lower line))
                                      (split_ws query_lower)) lines
              in
              if relevant_lines \<noteq> [] then (join nl (take 5 relevant_lines), log')
              else (no_relevant_message, log'))))"

section \<open>Agent state (agents.py)\<close>

datatype message = HumanMessage string | AIMessage string

record agent_state =
  messages :: "message list"
  user_input :: string
  intent :: string
  appointment_data :: "string \<rightharpoonup> string"
  conversation_history :: "(string \<times> string) list"
  documents_content :: string
  response :: string
  next_action :: string

section \<open>Intent classifier (agents.py)\<close>





section \<open>Slot-filling conversation engine (agents.py)\<close>

definition required_fields :: "string list" where
  "required_fields = [''name'', ''phone'', ''email'', ''date'']"

text \<open>\<open>field not in appointment_data or not appointment_data[field]\<close>\<close>

definition field_missing :: "(string \<rightharpoonup> string) \<Rightarrow> string \<Rightarrow> bool" where
  "field_missing ad f =
     (case ad f of None \<Rightarrow> True | Some v \<Rightarrow> v = [])"

definition missing_fields :: "(string \<rightharpoonup> string) \<Rightarrow> string list" where
  "missing_fields ad = filter (field_missing ad) required_fields"

text \<open>
  \<open>appointment_data[f]\<close> inside the two summaries, which are only built when no required
  field is missing, so that the key is present.
\<close>

definition field :: "(string \<rightharpoonup> string) \<Rightarrow> string \<Rightarrow> string" where
  "field ad f = (case ad f of Some v \<Rightarrow> v | None \<Rightarrow> [])"

definition confirmed_summary :: "(string \<rightharpoonup> string) \<Rightarrow> string" where
  "confirmed_summary ad =
     ''Great! I have all the information needed for your appointment:'' @ nl
      @ ''            Name: '' @ field ad ''name'' @ nl
      @ ''            Phone: '' @ field ad ''phone'' @ nl
      @ ''            Email: '' @ field ad ''email'' @ nl
      @ ''            Date: '' @ field ad ''date'' @ nl
      @ ''            '' @ nl
      @ ''            Your appointment has been successfully booked! You will receive a confirmation email shortly.'' @ nl
      @ ''        ''"

definition booked_summary :: "(string \<rightharpoonup> string) \<Rightarrow> string" where
  "booked_summary ad =
     ''Perfect! I have all the information needed:'' @ nl
      @ nl
      @ ''        Name: '' @ field ad ''name'' @ nl
      @ ''        Phone: '' @ field ad ''phone'' @ nl
      @ ''        Email: '' @ field ad ''email'' @ nl
      @ ''        Date: '' @ field ad ''date'' @ nl
      @ ''        '' @ nl
      @ ''        Your appointment has been successfully booked!'' @ nl
      @ ''        ''"

definition name_prompt :: "string \<Rightarrow> string" where
  "name_prompt inp =
     nl
      @ ''        Extract the person'' @ apos @ ''s name from this text. If no name is present, respond with '' @ dq @ ''NOT_FOUND'' @ dq @ ''.'' @ nl
      @ ''        Text: '' @ dq @ inp @ dq @ nl
      @ ''        Name:'' @ nl
      @ ''        ''"

text \<open>The pattern \<^verbatim>\<open>[\+\(]?[0-9][0-9\s\-\(\)]{8,}[0-9]\<close>.\<close>

definition phone_pattern :: "item list" where
  "phone_pattern =
     [Cls (\<lambda>c. c = CHR ''+'' \<or> c = CHR ''('') 0 (Some 1),
      Cls ascii_digit 1 (Some 1),
      Cls (\<lambda>c. ascii_digit c \<or> isspace c \<or> c = CHR ''-'' \<or> c = CHR ''('' \<or> c = CHR '')'')
        8 None,
      Cls ascii_digit 1 (Some 1)]"

text \<open>
  The pattern \<^verbatim>\<open>\b[A-Za-z0-9._%+-]+@[A-Za-z0-9.-]+\.[A-Z|a-z]{2,}\b\<close>; the last class
  contains the bar.
\<close>

definition email_pattern :: "item list" where
  "email_pattern =
     [WordB,
      Cls (\<lambda>c. ascii_letter c \<or> ascii_digit c \<or> c \<in> set ''._%+-'') 1 None,
      Lit CHR ''@'',
      Cls (\<lambda>c. ascii_letter c \<or> ascii_digit c \<or> c \<in> set ''.-'') 1 None,
      Lit CHR ''.'',
      Cls (\<lambda>c. ascii_letter c \<or> c = CHR ''|'') 2 None,
      WordB]"

text \<open>
  The four extraction steps. Each runs only when its field is missing, and returns the
  appointment data and the acknowledgments collected so far; the name step also returns
  the log of the text-completion service.
\<close>

definition name_step ::
  "llm \<Rightarrow> string list \<Rightarrow> string \<Rightarrow> (string \<rightharpoonup> string) \<Rightarrow> string list
     \<Rightarrow> (string \<rightharpoonup> string) \<times> string list \<times> string list" where
  "name_step svc log inp ad response_parts =
     (if field_missing ad ''name'' then
        (case invoke svc log (name_prompt inp) of
           (Inr out, log') \<Rightarrow>
             (let extracted_name = strip out in
              if extracted_name \<noteq> ''NOT_FOUND'' \<and> length extracted_name > 0 then
                (case validate_name extracted_name of
                   Valid v \<Rightarrow>
                     (ad(''name'' \<mapsto> v),
                      response_parts @ [''Got it! I'' @ apos @ ''ve recorded your name as '' @ v @ ''.''],
                      log')
                 | Invalid _ \<Rightarrow> (ad, response_parts, log'))
              else (ad, response_parts, log'))
         | (Inl _, log') \<Rightarrow> (ad, response_parts, log'))
      else (ad, response_parts, log))"

definition phone_step ::
  "string \<Rightarrow> (string \<rightharpoonup> string) \<Rightarrow> string list \<Rightarrow> (string \<rightharpoonup> string) \<times> string list" where
  "phone_step inp ad response_parts =
     (if field_missing ad ''phone'' then
        (case findall_first phone_pattern inp of
           Some m \<Rightarrow>
             (case validate_phone m of
                Valid v \<Rightarrow>
                  (ad(''phone'' \<mapsto> v),
                   response_parts @ [''Phone number recorded: '' @ v])
              | Invalid _ \<Rightarrow> (ad, response_parts))
         | None \<Rightarrow> (ad, response_parts))
      else (ad, response_parts))"

definition email_step ::
  "env \<Rightarrow> string \<Rightarrow> (string \<rightharpoonup> string) \<Rightarrow> string list \<Rightarrow> (string \<rightharpoonup> string) \<times> string list" where
  "email_step e inp ad response_parts =
     (if field_missing ad ''email'' then
        (case findall_first email_pattern inp of
           Some m \<Rightarrow>
             (case validate_email_address (validate_email e) m of
                Valid v \<Rightarrow>
                  (ad(''email'' \<mapsto> v), response_parts @ [''Email recorded: '' @ v])
              | Invalid _ \<Rightarrow> (ad, response_parts))
         | None \<Rightarrow> (ad, response_parts))
      else (ad, response_parts))"

definition date_step ::
  "env \<Rightarrow> string \<Rightarrow> (string \<rightharpoonup> string) \<Rightarrow> string list \<Rightarrow> (string \<rightharpoonup> string) \<times> string list" where
  "date_step e inp ad response_parts =
     (if field_missing ad ''date'' then
        (case extract_date_from_natural_language e inp of
           DateValid v parsed_date \<Rightarrow>
             (ad(''date'' \<mapsto> v), response_parts @ [''Date recorded: '' @ parsed_date])
         | DateInvalid _ \<Rightarrow> (ad, response_parts))
      else (ad, response_parts))"

text \<open>The four steps in the order of the source.\<close>

definition extract_fields ::
  "llm \<Rightarrow> env \<Rightarrow> string list \<Rightarrow> string \<Rightarrow> (string \<rightharpoonup> string)
     \<Rightarrow> (string \<rightharpoonup> string) \<times> string list \<times> string list" where
  "extract_fields svc e log inp ad =
     (case name_step svc log inp ad [] of
        (ad1, parts1, log') \<Rightarrow>
          (case phone_step inp ad1 parts1 of
             (ad2, parts2) \<Rightarrow>
               (case email_step e inp ad2 parts2 of
                  (ad3, parts3) \<Rightarrow>
                    (case date_step e inp ad3 parts3 of
                       (ad4, parts4) \<Rightarrow> (ad4, parts4, log')))))"

text \<open>The \<open>if\<close>/\<open>elif\<close> chain that picks the question.\<close>

definition question :: "string list \<Rightarrow> string" where
  "question missing =
     (if ''name'' \<in> set missing then ''Could you please provide your full name?''
      else if ''phone'' \<in> set missing then ''Could you please provide your phone number?''
      else if ''email'' \<in> set missing then ''Could you please provide your email address?''
      else if ''date'' \<in> set missing
      then ''When would you like to schedule your appointment? (You can say things like ''
             @ apos @ ''next Monday'' @ apos @ '', '' @ apos @ ''tomorrow'' @ apos @ '', ''
             @ apos @ ''in 3 days'' @ apos @ '', etc.)''
      else [])"

definition acknowledgments :: "string list \<Rightarrow> string" where
  "acknowledgments response_parts =
     (if response_parts \<noteq> [] then join nl response_parts @ nl @ nl else [])"

definition handle_appointment_booking ::
  "llm \<Rightarrow> env \<Rightarrow> string list \<Rightarrow> agent_state \<Rightarrow> agent_state \<times> string list" where
  "handle_appointment_booking svc e log state =
     (let inp = user_input state;
          ad = appointment_data state
      in
      if missing_fields ad = []
      then (state\<lparr>response := confirmed_summary ad, next_action := ''complete''\<rparr>,
            log)
      else
        (case extract_fields svc e log inp ad of
           (ad', response_parts, log') \<Rightarrow>
             (let missing = missing_fields ad';
                  acks = acknowledgments response_parts
              in
              if missing \<noteq> []
              then (state\<lparr>appointment_data := ad',
                           response := acks @ question missing,
                           next_action := ''continue''\<rparr>, log')
              else (state\<lparr>appointment_data := ad',
                           response := booked_summary ad',
                           next_action := ''complete''\<rparr>, log'))))"

section \<open>Turn orchestrator (agents.py)\<close>

text \<open>The state that \<open>run_agent\<close> builds from the user input and the session data.\<close>

definition initial_state ::
  "string \<Rightarrow> (string \<rightharpoonup> string) \<Rightarrow> (string \<times> string) list \<Rightarrow> string \<Rightarrow> agent_state" where
  "initial_state inp ad history docs =
     \<lparr>messages = [HumanMessage inp], user_input = inp, intent = [], appointment_data = ad,
      conversation_history = history, documents_content = docs, response = [],
      next_action = []\<rparr>"

section \<open>Vocabulary of the properties\<close>

text \<open>The question that the engine asks for a field, as the four branches append it.\<close>

definition field_question :: "string \<Rightarrow> string" where
  "field_question f =
     (if f = ''name'' then ''Could you please provide your full name?''
      else if f = ''phone'' then ''Could you please provide your phone number?''
      else if f = ''email'' then ''Could you please provide your email address?''
      else ''When would you like to schedule your appointment? (You can say things like ''
             @ apos @ ''next Monday'' @ apos @ '', '' @ apos @ ''tomorrow'' @ apos @ '', ''
             @ apos @ ''in 3 days'' @ apos @ '', etc.)'')"

text \<open>The four acknowledgment lines start with fixed words.\<close>

definition is_acknowledgment :: "string \<Rightarrow> bool" where
  "is_acknowledgment p =
     (prefix ''Got it!'' p \<or> prefix ''Phone number recorded: '' p
      \<or> prefix ''Email recorded: '' p \<or> prefix ''Date recorded: '' p)"


text \<open>The \<open>valid\<close> flag of a result of the date resolver.\<close>

definition date_ok :: "date_result \<Rightarrow> bool" where
  "date_ok r = (case r of DateValid _ _ \<Rightarrow> True | DateInvalid _ \<Rightarrow> False)"

text \<open>Weekdays are numbered from Monday, 0, to Sunday, 6, as \<open>datetime.weekday\<close> does.\<close>

definition weekday_names :: "string list" where
  "weekday_names =
     [''monday'', ''tuesday'', ''wednesday'', ''thursday'', ''friday'', ''saturday'', ''sunday'']"

definition next_phrase :: "nat \<Rightarrow> string" where
  "next_phrase w = ''next '' @ weekday_names ! w"

definition coming_phrase :: "nat \<Rightarrow> string" where
  "coming_phrase w = ''coming '' @ weekday_names ! w"

definition names_weekday :: "nat \<Rightarrow> string \<Rightarrow> bool" where
  "names_weekday w s = (contains (next_phrase w) s \<or> contains (coming_phrase w) s)"

text \<open>The utterance of the scenario with an email address and a phone number.\<close>

definition email_phone_utterance :: string where
  "email_phone_utterance = ''Email is john.doe@example.com and phone 555-123-4567''"

section \<open>Sample collaborators\<close>

text \<open>A service that is down, and one that always gives the same reply.\<close>

definition unreachable :: llm where
  "unreachable log prompt = Inl (ServiceError ''connection refused'')"

definition canned :: "string \<Rightarrow> llm" where
  "canned reply log prompt = Inr reply"

text \<open>
  The Gregorian calendar: year, month and day of an ordinal, and the two renderings that
  the date resolver asks of \<open>strftime\<close>.
\<close>

definition days_before_month :: "int list" where
  "days_before_month = [0, 31, 59, 90, 120, 151, 181, 212, 243, 273, 304, 334]"

definition days_in_month :: "int list" where
  "days_in_month = [31, 28, 31, 30, 31, 30, 31, 31, 30, 31, 30, 31]"

definition ord2ymd :: "int \<Rightarrow> int \<times> nat \<times> int" where
  "ord2ymd n0 =
     (let n = n0 - 1;
          n400 = n div 146097; n = n mod 146097;
          n100 = n div 36524; n = n mod 36524;
          n4 = n div 1461; n = n mod 1461;
          n1 = n div 365; n = n mod 365;
          year = n400 * 400 + 1 + n100 * 100 + n4 * 4 + n1
      in
      if n1 = 4 \<or> n100 = 4 then (year - 1, 12, 31)
      else
        (let leapyear = (n1 = 3 \<and> (n4 \<noteq> 24 \<or> n100 = 3));
             month = nat ((n + 50) div 32);
             preceding = days_before_month ! (month - 1)
                         + (if month > 2 \<and> leapyear then 1 else 0)
         in
         if preceding > n
         then (year, month - 1,
               n - (preceding - (days_in_month ! (month - 2)
                                 + (if month - 1 = 2 \<and> leapyear then 1 else 0))) + 1)
         else (year, month, n - preceding + 1)))"

fun zpad :: "nat \<Rightarrow> int \<Rightarrow> string" where
  "zpad 0 n = []"
| "zpad (Suc k) n = zpad k (n div 10) @ [char_of (48 + n mod 10)]"

definition month_names :: "string list" where
  "month_names =
     [''January'', ''February'', ''March'', ''April'', ''May'', ''June'', ''July'', ''August'',
      ''September'', ''October'', ''November'', ''December'']"

definition calendar_strftime :: "string \<Rightarrow> datetime \<Rightarrow> string" where
  "calendar_strftime fmt d =
     (case ord2ymd (ordinal d) of
        (y, m, dd) \<Rightarrow>
          if fmt = ''%Y-%m-%d''
          then zpad 4 y @ ''-'' @ zpad 2 (int m) @ ''-'' @ zpad 2 dd
          else if fmt = ''%B %d, %Y''
          then month_names ! (m - 1) @ '' '' @ zpad 2 dd @ '', '' @ zpad 4 y
          else fmt)"

text \<open>
  An environment with the clock at midnight of a given day, a fuzzy parser that
  recognises nothing and an email checker that accepts every address as it is.
\<close>

definition calendar_env :: "int \<Rightarrow> env" where
  "calendar_env day =
     \<lparr>now = \<lparr>ordinal = day, clock = 0\<rparr>, parse_fuzzy = (\<lambda>text. Inl ParserError),
      strftime = calendar_strftime, validate_email = Inr\<rparr>"

section \<open>Properties of the matcher\<close>






section \<open>Field validators\<close>







section \<open>Date resolver\<close>

lemma contains_length: "contains sub s \<Longrightarrow> length sub \<le> length s"
  by (induction s) (auto dest: prefix_length_le)

lemma days_ahead_range:
  assumes "0 \<le> w" and "w < 7"
  shows "1 \<le> days_ahead w today \<and> days_ahead w today \<le> 7"
proof -
  have "0 \<le> weekday today \<and> weekday today < 7" by (simp add: weekday_def)
  then show ?thesis using assms by (auto simp: days_ahead_def Let_def)
qed

lemma days_ahead_weekday:
  assumes "0 \<le> w" and "w < 7"
  shows "(ordinal today + days_ahead w today + 6) mod 7 = w"
proof (cases "w - (ordinal today + 6) mod 7 \<le> 0")
  case True
  then have "days_ahead w today = w - (ordinal today + 6) mod 7 + 7"
    by (simp add: days_ahead_def weekday_def)
  then show ?thesis using assms by presburger
next
  case False
  then have "days_ahead w today = w - (ordinal today + 6) mod 7"
    by (simp add: days_ahead_def weekday_def)
  then show ?thesis using assms by presburger
qed

lemma days_ahead_same_day: "weekday today = w \<Longrightarrow> days_ahead w today = 7"
  by (simp add: days_ahead_def)

lemma days_ahead_first:
  assumes "0 \<le> w" and "w < 7" and "1 \<le> j" and "j < days_ahead w today"
  shows "(ordinal today + j + 6) mod 7 \<noteq> w"
proof
  assume a: "(ordinal today + j + 6) mod 7 = w"
  have r: "1 \<le> days_ahead w today \<and> days_ahead w today \<le> 7"
    using days_ahead_range [OF assms(1,2)] .
  have b: "(ordinal today + days_ahead w today + 6) mod 7 = w"
    using days_ahead_weekday [OF assms(1,2)] .
  from a b assms(3,4) r show False by presburger
qed

lemma phrases:
  "next_phrase 0 = ''next monday''" "coming_phrase 0 = ''coming monday''"
  "next_phrase 1 = ''next tuesday''" "coming_phrase 1 = ''coming tuesday''"
  "next_phrase (Suc 0) = ''next tuesday''" "coming_phrase (Suc 0) = ''coming tuesday''"
  "next_phrase 2 = ''next wednesday''" "coming_phrase 2 = ''coming wednesday''"
  "next_phrase 3 = ''next thursday''" "coming_phrase 3 = ''coming thursday''"
  "next_phrase 4 = ''next friday''" "coming_phrase 4 = ''coming friday''"
  "next_phrase 5 = ''next saturday''" "coming_phrase 5 = ''coming saturday''"
  "next_phrase 6 = ''next sunday''" "coming_phrase 6 = ''coming sunday''"
  by (simp_all add: next_phrase_def coming_phrase_def weekday_names_def)

lemma names_weekday_long: "w < 7 \<Longrightarrow> names_weekday w s \<Longrightarrow> 11 \<le> length s"
proof -
  assume w: "w < 7" and n: "names_weekday w s"
  have "11 \<le> length (next_phrase w) \<and> 11 \<le> length (coming_phrase w)"
  proof -
    from w consider "w = 0" | "w = 1" | "w = 2" | "w = 3" | "w = 4" | "w = 5" | "w = 6"
      by linarith
    then show ?thesis by cases (simp_all add: phrases)
  qed
  then show ?thesis
    using n contains_length [of "next_phrase w" s] contains_length [of "coming_phrase w" s]
    by (auto simp: names_weekday_def)
qed

lemma target_date_chain:
  "target_date e date_text =
     (let l = strip (lower date_text); today = now e in
      if l = ''today'' then Inr today
      else if l = ''tomorrow'' then plus_days today 1
      else if contains ''next week'' l then plus_days today 7
      else if contains ''next month'' l then plus_days today 30
      else if names_weekday 0 l then plus_days today (days_ahead 0 today)
      else if names_weekday 1 l then plus_days today (days_ahead 1 today)
      else if names_weekday 2 l then plus_days today (days_ahead 2 today)
      else if names_weekday 3 l then plus_days today (days_ahead 3 today)
      else if names_weekday 4 l then plus_days today (days_ahead 4 today)
      else if names_weekday 5 l then plus_days today (days_ahead 5 today)
      else if names_weekday 6 l then plus_days today (days_ahead 6 today)
      else if contains ''in'' l \<and> contains ''day'' l
      then (case re_search in_days_pattern l of
              Some m \<Rightarrow> plus_days today (int_of_digits (group1 l m))
            | None \<Rightarrow> parse_fuzzy e date_text)
      else parse_fuzzy e date_text)"
  unfolding target_date_def names_weekday_def phrases ..

lemma weekday_branch:
  assumes w: "w < 7"
    and here: "names_weekday w (strip (lower date_text))"
    and week: "\<not> contains ''next week'' (strip (lower date_text))"
    and month: "\<not> contains ''next month'' (strip (lower date_text))"
    and earlier: "\<forall>v<w. \<not> names_weekday v (strip (lower date_text))"
  shows "target_date e date_text = plus_days (now e) (days_ahead (int w) (now e))"
proof -
  let ?l = "strip (lower date_text)"
  have len: "11 \<le> length ?l" using names_weekday_long [OF w here] .
  have t: "?l \<noteq> ''today''" "?l \<noteq> ''tomorrow''" using len by auto
  from w consider "w = 0" | "w = 1" | "w = 2" | "w = 3" | "w = 4" | "w = 5" | "w = 6"
    by linarith
  then show ?thesis
  proof cases
    case 1
    then show ?thesis using here t week month
      by (simp add: target_date_chain Let_def)
  next
    case 2
    have "\<not> names_weekday 0 ?l" using earlier 2 by simp
    then show ?thesis using 2 here t week month
      by (simp add: target_date_chain Let_def)
  next
    case 3
    have "\<not> names_weekday 0 ?l" "\<not> names_weekday 1 ?l" using earlier 3 by simp_all
    then show ?thesis using 3 here t week month
      by (simp add: target_date_chain Let_def)
  next
    case 4
    have "\<not> names_weekday 0 ?l" "\<not> names_weekday 1 ?l" "\<not> names_weekday 2 ?l"
      using earlier 4 by simp_all
    then show ?thesis using 4 here t week month
      by (simp add: target_date_chain Let_def)
  next
    case 5
    have "\<not> names_weekday 0 ?l" "\<not> names_weekday 1 ?l" "\<not> names_weekday 2 ?l"
      "\<not> names_weekday 3 ?l"
      using earlier 5 by simp_all
    then show ?thesis using 5 here t week month
      by (simp add: target_date_chain Let_def)
  next
    case 6
    have "\<not> names_weekday 0 ?l" "\<not> names_weekday 1 ?l" "\<not> names_weekday 2 ?l"
      "\<not> names_weekday 3 ?l" "\<not> names_weekday 4 ?l"
      using earlier 6 by simp_all
    then show ?thesis using 6 here t week month
      by (simp add: target_date_chain Let_def)
  next
    case 7
    have "\<not> names_weekday 0 ?l" "\<not> names_weekday 1 ?l" "\<not> names_weekday 2 ?l"
      "\<not> names_weekday 3 ?l" "\<not> names_weekday 4 ?l" "\<not> names_weekday 5 ?l"
      using earlier 7 by simp_all
    then show ?thesis using 7 here t week month
      by (simp add: target_date_chain Let_def)
  qed
qed

lemma target_today: "target_date e ''today'' = Inr (now e)"
proof -
  have "strip (lower ''today'') = ''today''" by code_simp
  then show ?thesis by (simp add: target_date_def Let_def)
qed

lemma target_tomorrow: "target_date e ''tomorrow'' = plus_days (now e) 1"
proof -
  have "strip (lower ''tomorrow'') = ''tomorrow''" by code_simp
  then show ?thesis by (simp add: target_date_def Let_def)
qed

text \<open>
  Claim C9, as stated, fails on the last day that a \<open>datetime\<close> can hold: on
  9999-12-31 the call for \<open>today\<close> succeeds, and the call for \<open>tomorrow\<close> overflows the
  date range, which the resolver reports as an invalid date.
\<close>

theorem tomorrow_counterexample:
  "is_datetime (now (calendar_env 3652059))
   \<and> extract_date_from_natural_language (calendar_env 3652059) ''today''
       = DateValid ''9999-12-31'' ''December 31, 9999''
   \<and> \<not> date_ok (extract_date_from_natural_language (calendar_env 3652059) ''tomorrow'')"
proof -
  have a: "is_datetime (now (calendar_env 3652059))"
    by (simp add: is_datetime_def calendar_env_def MAXORDINAL_def)
  have "plus_days (now (calendar_env 3652059)) 1 = Inl OverflowError"
    by (simp add: plus_days_def calendar_env_def MAXORDINAL_def)
  then have b: "\<not> date_ok (extract_date_from_natural_language (calendar_env 3652059) ''tomorrow'')"
    by (simp add: extract_date_from_natural_language_def target_tomorrow date_ok_def)
  have s: "strftime (calendar_env 3652059) = calendar_strftime"
    "now (calendar_env 3652059) = \<lparr>ordinal = 3652059, clock = 0\<rparr>"
    by (simp_all add: calendar_env_def)
  have r: "calendar_strftime ''%Y-%m-%d'' \<lparr>ordinal = 3652059, clock = 0\<rparr> = ''9999-12-31''"
    "calendar_strftime ''%B %d, %Y'' \<lparr>ordinal = 3652059, clock = 0\<rparr> = ''December 31, 9999''"
    by code_simp+
  have c: "extract_date_from_natural_language (calendar_env 3652059) ''today''
       = DateValid ''9999-12-31'' ''December 31, 9999''"
    by (simp add: extract_date_from_natural_language_def target_today s r)
  from a b c show ?thesis by blast
qed

text \<open>
  Claim C9, amended. For every reference \<open>now\<close> before the last representable day,
  the resolver succeeds on \<open>today\<close> and on \<open>tomorrow\<close>, and the value returned for
  \<open>tomorrow\<close> is the rendering of the day after the one rendered for \<open>today\<close>.
\<close>

theorem tomorrow_is_today_plus_one:
  assumes "is_datetime (now e)" and "ordinal (now e) < MAXORDINAL"
  shows "extract_date_from_natural_language e ''today''
           = DateValid (strftime e ''%Y-%m-%d'' (now e)) (strftime e ''%B %d, %Y'' (now e))
       \<and> extract_date_from_natural_language e ''tomorrow''
           = DateValid (strftime e ''%Y-%m-%d'' ((now e)\<lparr>ordinal := ordinal (now e) + 1\<rparr>))
               (strftime e ''%B %d, %Y'' ((now e)\<lparr>ordinal := ordinal (now e) + 1\<rparr>))"
proof -
  have "plus_days (now e) 1 = Inr ((now e)\<lparr>ordinal := ordinal (now e) + 1\<rparr>)"
    using assms by (simp add: plus_days_def is_datetime_def)
  then show ?thesis
    by (simp add: extract_date_from_natural_language_def target_today target_tomorrow)
qed

theorem tomorrow_is_today_plus_one_witness:
  "is_datetime (now (calendar_env 739257)) \<and> ordinal (now (calendar_env 739257)) < MAXORDINAL
   \<and> extract_date_from_natural_language (calendar_env 739257) ''today''
       = DateValid ''2025-01-06'' ''January 06, 2025''
   \<and> extract_date_from_natural_language (calendar_env 739257) ''tomorrow''
       = DateValid ''2025-01-07'' ''January 07, 2025''"
proof -
  have a: "is_datetime (now (calendar_env 739257))"
    by (simp add: is_datetime_def calendar_env_def MAXORDINAL_def)
  have b: "ordinal (now (calendar_env 739257)) < MAXORDINAL"
    by (simp add: calendar_env_def MAXORDINAL_def)
  have s: "strftime (calendar_env 739257) = calendar_strftime"
    "now (calendar_env 739257) = \<lparr>ordinal = 739257, clock = 0\<rparr>"
    by (simp_all add: calendar_env_def)
  have r: "calendar_strftime ''%Y-%m-%d'' \<lparr>ordinal = 739257, clock = 0\<rparr> = ''2025-01-06''"
    "calendar_strftime ''%B %d, %Y'' \<lparr>ordinal = 739257, clock = 0\<rparr> = ''January 06, 2025''"
    "calendar_strftime ''%Y-%m-%d'' \<lparr>ordinal = 739258, clock = 0\<rparr> = ''2025-01-07''"
    "calendar_strftime ''%B %d, %Y'' \<lparr>ordinal = 739258, clock = 0\<rparr> = ''January 07, 2025''"
    by code_simp+
  show ?thesis
    using tomorrow_is_today_plus_one [OF a b] a b by (simp add: s r)
qed

text \<open>
  Claim C8, as stated, fails on an input that an earlier rule of the chain takes: on a
  Wednesday, \<open>next week or coming friday\<close> names Friday and resolves to the Wednesday
  seven days later, by the rule for \<open>next week\<close>.
\<close>

theorem next_weekday_counterexample:
  "names_weekday 4 (strip (lower ''next week or coming friday''))
   \<and> weekday (now (calendar_env 739259)) = 2
   \<and> extract_date_from_natural_language (calendar_env 739259) ''next week or coming friday''
       = DateValid ''2025-01-15'' ''January 15, 2025''
   \<and> target_date (calendar_env 739259) ''next week or coming friday''
       = Inr \<lparr>ordinal = 739266, clock = 0\<rparr>
   \<and> weekday \<lparr>ordinal = 739266, clock = 0\<rparr> \<noteq> 4"
proof -
  have l: "strip (lower ''next week or coming friday'') = ''next week or coming friday''"
    by code_simp
  have a: "names_weekday 4 ''next week or coming friday''"
    by code_simp
  have c: "contains ''next week'' ''next week or coming friday''"
    by code_simp
  have n: "now (calendar_env 739259) = \<lparr>ordinal = 739259, clock = 0\<rparr>"
    "strftime (calendar_env 739259) = calendar_strftime"
    by (simp_all add: calendar_env_def)
  have t: "target_date (calendar_env 739259) ''next week or coming friday''
      = Inr \<lparr>ordinal = 739266, clock = 0\<rparr>"
    using c by (simp add: target_date_def Let_def l n plus_days_def MAXORDINAL_def)
  have r: "calendar_strftime ''%Y-%m-%d'' \<lparr>ordinal = 739266, clock = 0\<rparr> = ''2025-01-15''"
    "calendar_strftime ''%B %d, %Y'' \<lparr>ordinal = 739266, clock = 0\<rparr> = ''January 15, 2025''"
    by code_simp+
  have x: "extract_date_from_natural_language (calendar_env 739259) ''next week or coming friday''
       = DateValid ''2025-01-15'' ''January 15, 2025''"
    by (simp add: extract_date_from_natural_language_def t n r)
  have w: "weekday (now (calendar_env 739259)) = 2" "weekday \<lparr>ordinal = 739266, clock = 0\<rparr> \<noteq> 4"
    by (simp_all add: n weekday_def)
  from a l t x w show ?thesis by simp
qed

text \<open>
  Claim C8, amended. Let the lower-cased, trimmed input name weekday \<open>w\<close> by
  \<open>next w\<close> or \<open>coming w\<close>, contain neither \<open>next week\<close> nor \<open>next month\<close>, and
  name no weekday before \<open>w\<close> in the order Monday to Sunday; let the date found be
  representable. Then the resolver returns the next day strictly after today that falls
  on \<open>w\<close>: between one and seven days ahead, on weekday \<open>w\<close>, with no day on \<open>w\<close> in
  between, and exactly seven days ahead when today falls on \<open>w\<close>.
\<close>

theorem next_weekday_rule:
  assumes "w < 7"
    and "names_weekday w (strip (lower date_text))"
    and "\<not> contains ''next week'' (strip (lower date_text))"
    and "\<not> contains ''next month'' (strip (lower date_text))"
    and "\<forall>v<w. \<not> names_weekday v (strip (lower date_text))"
    and "is_datetime (now e)"
    and "ordinal (now e) + days_ahead (int w) (now e) \<le> MAXORDINAL"
  shows "1 \<le> days_ahead (int w) (now e) \<and> days_ahead (int w) (now e) \<le> 7
     \<and> target_date e date_text
         = Inr ((now e)\<lparr>ordinal := ordinal (now e) + days_ahead (int w) (now e)\<rparr>)
     \<and> extract_date_from_natural_language e date_text
         = DateValid
             (strftime e ''%Y-%m-%d''
               ((now e)\<lparr>ordinal := ordinal (now e) + days_ahead (int w) (now e)\<rparr>))
             (strftime e ''%B %d, %Y''
               ((now e)\<lparr>ordinal := ordinal (now e) + days_ahead (int w) (now e)\<rparr>))
     \<and> weekday ((now e)\<lparr>ordinal := ordinal (now e) + days_ahead (int w) (now e)\<rparr>) = int w
     \<and> (\<forall>j. 1 \<le> j \<and> j < days_ahead (int w) (now e)
            \<longrightarrow> weekday ((now e)\<lparr>ordinal := ordinal (now e) + j\<rparr>) \<noteq> int w)
     \<and> (weekday (now e) = int w \<longrightarrow> days_ahead (int w) (now e) = 7)"
proof -
  let ?k = "days_ahead (int w) (now e)"
  have w: "0 \<le> int w" "int w < 7" using assms(1) by simp_all
  have r: "1 \<le> ?k \<and> ?k \<le> 7" using days_ahead_range [OF w] .
  have "target_date e date_text = plus_days (now e) ?k"
    using weekday_branch [OF assms(1-5)] .
  moreover have "plus_days (now e) ?k = Inr ((now e)\<lparr>ordinal := ordinal (now e) + ?k\<rparr>)"
    using r assms(6,7) by (simp add: plus_days_def is_datetime_def)
  ultimately have t: "target_date e date_text = Inr ((now e)\<lparr>ordinal := ordinal (now e) + ?k\<rparr>)"
    by simp
  have x: "extract_date_from_natural_language e date_text
         = DateValid (strftime e ''%Y-%m-%d'' ((now e)\<lparr>ordinal := ordinal (now e) + ?k\<rparr>))
             (strftime e ''%B %d, %Y'' ((now e)\<lparr>ordinal := ordinal (now e) + ?k\<rparr>))"
    by (simp add: extract_date_from_natural_language_def t)
  have d: "weekday ((now e)\<lparr>ordinal := ordinal (now e) + ?k\<rparr>) = int w"
    using days_ahead_weekday [OF w, of "now e"] by (simp add: weekday_def)
  have f: "\<forall>j. 1 \<le> j \<and> j < ?k \<longrightarrow> weekday ((now e)\<lparr>ordinal := ordinal (now e) + j\<rparr>) \<noteq> int w"
    using days_ahead_first [OF w, of _ "now e"] by (simp add: weekday_def)
  have s: "weekday (now e) = int w \<longrightarrow> ?k = 7"
    using days_ahead_same_day [of "now e" "int w"] by simp
  from r t x d f s show ?thesis by blast
qed

theorem next_weekday_rule_witness:
  "weekday (now (calendar_env 739257)) = 0
   \<and> names_weekday 0 (strip (lower ''Next Monday''))
   \<and> extract_date_from_natural_language (calendar_env 739257) ''Next Monday''
       = DateValid ''2025-01-13'' ''January 13, 2025''
   \<and> weekday \<lparr>ordinal = 739264, clock = 0\<rparr> = 0"
proof -
  let ?e = "calendar_env 739257"
  have n: "now ?e = \<lparr>ordinal = 739257, clock = 0\<rparr>" "strftime ?e = calendar_strftime"
    by (simp_all add: calendar_env_def)
  have l: "strip (lower ''Next Monday'') = ''next monday''"
    by code_simp
  have h1: "(0::nat) < 7" by simp
  have h2: "names_weekday 0 (strip (lower ''Next Monday''))"
    unfolding l by code_simp
  have h3: "\<not> contains ''next week'' (strip (lower ''Next Monday''))"
    unfolding l by code_simp
  have h4: "\<not> contains ''next month'' (strip (lower ''Next Monday''))"
    unfolding l by code_simp
  have h5: "\<forall>v<(0::nat). \<not> names_weekday v (strip (lower ''Next Monday''))"
    by simp
  have h6: "is_datetime (now ?e)"
    by (simp add: n is_datetime_def MAXORDINAL_def)
  have k: "days_ahead (int 0) (now ?e) = 7"
    by (simp add: n days_ahead_def weekday_def)
  have h7: "ordinal (now ?e) + days_ahead (int 0) (now ?e) \<le> MAXORDINAL"
    unfolding k by (simp add: n MAXORDINAL_def)
  have r: "calendar_strftime ''%Y-%m-%d'' \<lparr>ordinal = 739264, clock = 0\<rparr> = ''2025-01-13''"
    "calendar_strftime ''%B %d, %Y'' \<lparr>ordinal = 739264, clock = 0\<rparr> = ''January 13, 2025''"
    by code_simp+
  have w: "weekday (now ?e) = 0" "weekday \<lparr>ordinal = 739264, clock = 0\<rparr> = 0"
    by (simp_all add: n weekday_def)
  show ?thesis
    using next_weekday_rule [OF h1 h2 h3 h4 h5 h6 h7] h2 w
    by (simp add: k n r)
qed

section \<open>Document query bridge\<close>

text \<open>
  Claim C10. For every query, when \<open>documents_content\<close> is empty, \<open>query_documents\<close>
  returns the fixed message that no documents are available and leaves the log of the
  text-completion service as it was: the service is not called.
\<close>

theorem query_documents_no_documents:
  "query_documents svc log query [] =
     (''No documents available to query. Please upload documents first.'', log)"
  by (simp add: query_documents_def no_documents_message_def)

theorem query_documents_no_documents_witness:
  "query_documents unreachable [] ''What does the basic plan cost?'' [] =
     (''No documents available to query. Please upload documents first.'', [])
   \<and> query_documents (canned ''42'') [''earlier prompt''] ''What does the basic plan cost?'' [] =
     (''No documents available to query. Please upload documents first.'', [''earlier prompt''])"
  using query_documents_no_documents [of unreachable "[]" "''What does the basic plan cost?''"]
    query_documents_no_documents [of "canned ''42''" "[''earlier prompt'']"
      "''What does the basic plan cost?''"]
  by blast

section \<open>Intent classifier\<close>






section \<open>Slot-filling conversation engine\<close>

lemma missing_fields_Nil_iff:
  "missing_fields ad = [] \<longleftrightarrow>
     \<not> field_missing ad ''name'' \<and> \<not> field_missing ad ''phone''
     \<and> \<not> field_missing ad ''email'' \<and> \<not> field_missing ad ''date''"
  by (simp add: missing_fields_def required_fields_def)

lemma field_missing_present: "ad f = Some v \<Longrightarrow> v \<noteq> [] \<Longrightarrow> \<not> field_missing ad f"
  by (simp add: field_missing_def)

text \<open>
  Claim C2. When the four fields name, phone, email and date are all present and
  non-empty at the start of a turn, then for every utterance the turn returns the
  booking-confirmed summary with the four recorded values, signals \<open>complete\<close>, calls no
  service and leaves the appointment data unchanged.
\<close>

theorem complete_record_terminal:
  assumes "appointment_data state ''name'' = Some n" and "n \<noteq> []"
    and "appointment_data state ''phone'' = Some p" and "p \<noteq> []"
    and "appointment_data state ''email'' = Some m" and "m \<noteq> []"
    and "appointment_data state ''date'' = Some d" and "d \<noteq> []"
  shows "handle_appointment_booking svc e log (state\<lparr>user_input := utterance\<rparr>) =
           (state\<lparr>user_input := utterance,
                  response :=
                    ''Great! I have all the information needed for your appointment:'' @ nl
                    @ ''            Name: '' @ n @ nl
                    @ ''            Phone: '' @ p @ nl
                    @ ''            Email: '' @ m @ nl
                    @ ''            Date: '' @ d @ nl
                    @ ''            '' @ nl
                    @ ''            Your appointment has been successfully booked! You will receive a confirmation email shortly.'' @ nl
                    @ ''        '',
                  next_action := ''complete''\<rparr>, log)
         \<and> appointment_data (fst (handle_appointment_booking svc e log
               (state\<lparr>user_input := utterance\<rparr>))) = appointment_data state"
proof -
  have "missing_fields (appointment_data state) = []"
    using assms by (simp add: missing_fields_Nil_iff field_missing_present)
  moreover have "confirmed_summary (appointment_data state) =
      ''Great! I have all the information needed for your appointment:'' @ nl
      @ ''            Name: '' @ n @ nl
      @ ''            Phone: '' @ p @ nl
      @ ''            Email: '' @ m @ nl
      @ ''            Date: '' @ d @ nl
      @ ''            '' @ nl
      @ ''            Your appointment has been successfully booked! You will receive a confirmation email shortly.'' @ nl
      @ ''        ''"
    using assms(1,3,5,7) by (simp add: confirmed_summary_def field_def)
  ultimately show ?thesis
    by (simp add: handle_appointment_booking_def Let_def)
qed

theorem complete_record_terminal_witness:
  "handle_appointment_booking unreachable (calendar_env 739257) []
      ((initial_state [] [''name'' \<mapsto> ''John Doe'', ''phone'' \<mapsto> ''5551234567'',
          ''email'' \<mapsto> ''john.doe@example.com'', ''date'' \<mapsto> ''2025-01-13''] [] [])
        \<lparr>user_input := ''My name is Jane Roe, call me tomorrow on 555-000-1111''\<rparr>)
    = ((initial_state [] [''name'' \<mapsto> ''John Doe'', ''phone'' \<mapsto> ''5551234567'',
          ''email'' \<mapsto> ''john.doe@example.com'', ''date'' \<mapsto> ''2025-01-13''] [] [])
        \<lparr>user_input := ''My name is Jane Roe, call me tomorrow on 555-000-1111'',
         response :=
           ''Great! I have all the information needed for your appointment:'' @ nl
           @ ''            Name: '' @ ''John Doe'' @ nl
           @ ''            Phone: '' @ ''5551234567'' @ nl
           @ ''            Email: '' @ ''john.doe@example.com'' @ nl
           @ ''            Date: '' @ ''2025-01-13'' @ nl
           @ ''            '' @ nl
           @ ''            Your appointment has been successfully booked! You will receive a confirmation email shortly.'' @ nl
           @ ''        '',
         next_action := ''complete''\<rparr>, [])"
proof -
  let ?ad = "[''name'' \<mapsto> ''John Doe'', ''phone'' \<mapsto> ''5551234567'',
          ''email'' \<mapsto> ''john.doe@example.com'', ''date'' \<mapsto> ''2025-01-13'']"
  let ?st = "initial_state [] ?ad [] []"
  have a: "appointment_data ?st = ?ad" by (simp add: initial_state_def)
  have h: "appointment_data ?st ''name'' = Some ''John Doe''" "''John Doe'' \<noteq> []"
    "appointment_data ?st ''phone'' = Some ''5551234567''" "''5551234567'' \<noteq> []"
    "appointment_data ?st ''email'' = Some ''john.doe@example.com''"
    "''john.doe@example.com'' \<noteq> []"
    "appointment_data ?st ''date'' = Some ''2025-01-13''" "''2025-01-13'' \<noteq> []"
    by (simp_all add: a)
  show ?thesis
    using complete_record_terminal [OF h, of unreachable "calendar_env 739257" "[]"
        "''My name is Jane Roe, call me tomorrow on 555-000-1111''"]
    by (rule conjunct1)
qed

lemma name_step_keeps:
  "ad k = Some v \<Longrightarrow> v \<noteq> [] \<Longrightarrow> fst (name_step svc log inp ad parts) k = Some v"
  by (auto simp: name_step_def invoke_def field_missing_def Let_def
      split: sum.splits validation.splits option.splits)

lemma phone_step_keeps:
  "ad k = Some v \<Longrightarrow> v \<noteq> [] \<Longrightarrow> fst (phone_step inp ad parts) k = Some v"
  by (auto simp: phone_step_def field_missing_def split: validation.splits option.splits)

lemma email_step_keeps:
  "ad k = Some v \<Longrightarrow> v \<noteq> [] \<Longrightarrow> fst (email_step e inp ad parts) k = Some v"
  by (auto simp: email_step_def field_missing_def split: validation.splits option.splits)

lemma date_step_keeps:
  "ad k = Some v \<Longrightarrow> v \<noteq> [] \<Longrightarrow> fst (date_step e inp ad parts) k = Some v"
  by (auto simp: date_step_def field_missing_def split: date_result.splits option.splits)

lemma extract_fields_keeps:
  assumes "ad k = Some v" and "v \<noteq> []"
  shows "fst (extract_fields svc e log inp ad) k = Some v"
proof -
  obtain ad1 parts1 log' where s1: "name_step svc log inp ad [] = (ad1, parts1, log')"
    by (metis prod_cases3)
  obtain ad2 parts2 where s2: "phone_step inp ad1 parts1 = (ad2, parts2)"
    by (metis surj_pair)
  obtain ad3 parts3 where s3: "email_step e inp ad2 parts2 = (ad3, parts3)"
    by (metis surj_pair)
  obtain ad4 parts4 where s4: "date_step e inp ad3 parts3 = (ad4, parts4)"
    by (metis surj_pair)
  have "ad1 k = Some v" using name_step_keeps [where ad = ad and k = k and v = v and svc = svc and log = log and inp = inp and parts = "[]"] assms s1 by simp
  then have "ad2 k = Some v" using phone_step_keeps [where ad = ad1 and k = k and v = v and inp = inp and parts = parts1] assms(2) s2 by simp
  then have "ad3 k = Some v" using email_step_keeps [where ad = ad2 and k = k and v = v and e = e and inp = inp and parts = parts2] assms(2) s3 by simp
  then have "ad4 k = Some v" using date_step_keeps [where ad = ad3 and k = k and v = v and e = e and inp = inp and parts = parts3] assms(2) s4 by simp
  then show ?thesis by (simp add: extract_fields_def s1 s2 s3 s4)
qed

text \<open>
  Claim C5. For every state and utterance, every entry of the appointment data that is
  present and non-empty before a turn has the same value after it.
\<close>

theorem recorded_fields_kept:
  assumes "appointment_data state k = Some v" and "v \<noteq> []"
  shows "appointment_data (fst (handle_appointment_booking svc e log state)) k = Some v"
proof (cases "missing_fields (appointment_data state) = []")
  case True
  then show ?thesis using assms by (simp add: handle_appointment_booking_def Let_def)
next
  case False
  obtain ad' parts log' where x:
    "extract_fields svc e log (user_input state) (appointment_data state) = (ad', parts, log')"
    by (metis prod_cases3)
  have "ad' k = Some v"
    using extract_fields_keeps [where ad = "appointment_data state" and k = k and v = v and svc = svc and e = e and log = log and inp = "user_input state"] assms x by simp
  then show ?thesis using False x by (simp add: handle_appointment_booking_def Let_def)
qed

theorem recorded_fields_kept_witness:
  "appointment_data (fst (handle_appointment_booking unreachable (calendar_env 739257) []
      (initial_state email_phone_utterance [''phone'' \<mapsto> ''0000000000''] [] []))) ''phone''
    = Some ''0000000000''"
proof -
  let ?st = "initial_state email_phone_utterance [''phone'' \<mapsto> ''0000000000''] [] []"
  have h: "appointment_data ?st ''phone'' = Some ''0000000000''" "''0000000000'' \<noteq> []"
    by (simp_all add: initial_state_def)
  show ?thesis
    using recorded_fields_kept [OF h, of unreachable "calendar_env 739257" "[]"] .
qed

lemma question_first_missing:
  "missing_fields ad \<noteq> [] \<Longrightarrow>
   question (missing_fields ad) = field_question (hd (missing_fields ad))"
  by (cases "field_missing ad ''name''"; cases "field_missing ad ''phone''";
      cases "field_missing ad ''email''"; cases "field_missing ad ''date''")
    (simp_all add: missing_fields_def required_fields_def question_def field_question_def)

lemma name_step_acks:
  "list_all is_acknowledgment parts \<Longrightarrow>
   list_all is_acknowledgment (fst (snd (name_step svc log inp ad parts)))"
  by (auto simp: name_step_def invoke_def Let_def is_acknowledgment_def
      split: sum.splits validation.splits)

lemma phone_step_acks:
  "list_all is_acknowledgment parts \<Longrightarrow>
   list_all is_acknowledgment (snd (phone_step inp ad parts))"
  by (auto simp: phone_step_def is_acknowledgment_def split: option.splits validation.splits)

lemma email_step_acks:
  "list_all is_acknowledgment parts \<Longrightarrow>
   list_all is_acknowledgment (snd (email_step e inp ad parts))"
  by (auto simp: email_step_def is_acknowledgment_def split: option.splits validation.splits)

lemma date_step_acks:
  "list_all is_acknowledgment parts \<Longrightarrow>
   list_all is_acknowledgment (snd (date_step e inp ad parts))"
  by (auto simp: date_step_def is_acknowledgment_def split: date_result.splits)

lemma extract_fields_acks:
  "list_all is_acknowledgment (fst (snd (extract_fields svc e log inp ad)))"
proof -
  obtain ad1 parts1 log' where s1: "name_step svc log inp ad [] = (ad1, parts1, log')"
    by (metis prod_cases3)
  obtain ad2 parts2 where s2: "phone_step inp ad1 parts1 = (ad2, parts2)"
    by (metis surj_pair)
  obtain ad3 parts3 where s3: "email_step e inp ad2 parts2 = (ad3, parts3)"
    by (metis surj_pair)
  obtain ad4 parts4 where s4: "date_step e inp ad3 parts3 = (ad4, parts4)"
    by (metis surj_pair)
  have "list_all is_acknowledgment parts1"
    using name_step_acks [where parts = "[]" and svc = svc and log = log and inp = inp and ad = ad]
      s1 by simp
  then have "list_all is_acknowledgment parts2"
    using phone_step_acks [where parts = parts1 and inp = inp and ad = ad1] s2 by simp
  then have "list_all is_acknowledgment parts3"
    using email_step_acks [where parts = parts2 and e = e and inp = inp and ad = ad2] s3 by simp
  then have "list_all is_acknowledgment parts4"
    using date_step_acks [where parts = parts3 and e = e and inp = inp and ad = ad3] s4 by simp
  then show ?thesis by (simp add: extract_fields_def s1 s2 s3 s4)
qed

text \<open>
  Claim C3. When a field is still missing after the extraction of a turn, the turn
  signals \<open>continue\<close> and its response is the acknowledgments of the turn followed by
  exactly one question, the one for the first missing field in the order name, phone,
  email, date.
\<close>

theorem one_question_for_first_missing:
  assumes "handle_appointment_booking svc e log state = (state', log')"
    and "missing_fields (appointment_data state') \<noteq> []"
  shows "next_action state' = ''continue''
     \<and> list_all is_acknowledgment
          (fst (snd (extract_fields svc e log (user_input state) (appointment_data state))))
     \<and> response state' =
          acknowledgments
            (fst (snd (extract_fields svc e log (user_input state) (appointment_data state))))
          @ field_question (hd (missing_fields (appointment_data state')))"
proof (cases "missing_fields (appointment_data state) = []")
  case True
  then have "appointment_data state' = appointment_data state"
    using assms(1) by (auto simp: handle_appointment_booking_def Let_def)
  with True assms(2) show ?thesis by simp
next
  case False
  obtain ad' parts lg where x:
    "extract_fields svc e log (user_input state) (appointment_data state) = (ad', parts, lg)"
    by (metis prod_cases3)
  have ad: "appointment_data state' = ad'"
    using assms(1) False x by (auto simp: handle_appointment_booking_def Let_def split: if_splits)
  then have m: "missing_fields ad' \<noteq> []" using assms(2) by simp
  have "next_action state' = ''continue''"
    using assms(1) False x m by (auto simp: handle_appointment_booking_def Let_def)
  moreover have "response state' = acknowledgments parts @ question (missing_fields ad')"
    using assms(1) False x m by (auto simp: handle_appointment_booking_def Let_def)
  moreover have "list_all is_acknowledgment parts"
    using extract_fields_acks [of svc e log "user_input state" "appointment_data state"] x
    by simp
  ultimately show ?thesis
    using question_first_missing [OF m] ad x by simp
qed

theorem one_question_for_first_missing_witness:
  "missing_fields (appointment_data (fst (handle_appointment_booking unreachable
      (calendar_env 739257) [] (initial_state email_phone_utterance Map.empty [] []))))
     = [''name'', ''date'']
   \<and> next_action (fst (handle_appointment_booking unreachable
      (calendar_env 739257) [] (initial_state email_phone_utterance Map.empty [] [])))
     = ''continue''
   \<and> response (fst (handle_appointment_booking unreachable
      (calendar_env 739257) [] (initial_state email_phone_utterance Map.empty [] [])))
     = ''Phone number recorded: 5551234567'' @ nl
        @ ''Email recorded: john.doe@example.com'' @ nl @ nl
        @ ''Could you please provide your full name?''"
proof -
  let ?st = "initial_state email_phone_utterance Map.empty [] []"
  let ?r = "handle_appointment_booking unreachable (calendar_env 739257) [] ?st"
  have m: "missing_fields (appointment_data (fst ?r)) = [''name'', ''date'']"
    by code_simp
  have h1: "?r = (fst ?r, snd ?r)" by simp
  have h2: "missing_fields (appointment_data (fst ?r)) \<noteq> []"
    unfolding m by simp
  have p: "fst (snd (extract_fields unreachable (calendar_env 739257) []
      (user_input ?st) (appointment_data ?st)))
     = [''Phone number recorded: 5551234567'', ''Email recorded: john.doe@example.com'']"
    by code_simp
  have q: "field_question (hd [''name'', ''date'']) = ''Could you please provide your full name?''"
    by (simp add: field_question_def)
  have a: "acknowledgments
      [''Phone number recorded: 5551234567'', ''Email recorded: john.doe@example.com'']
     = ''Phone number recorded: 5551234567'' @ nl
        @ ''Email recorded: john.doe@example.com'' @ nl @ nl"
    by (simp add: acknowledgments_def)
  have t: "next_action (fst ?r) = ''continue''
     \<and> list_all is_acknowledgment
          (fst (snd (extract_fields unreachable (calendar_env 739257) []
             (user_input ?st) (appointment_data ?st))))
     \<and> response (fst ?r) =
          acknowledgments
            (fst (snd (extract_fields unreachable (calendar_env 739257) []
               (user_input ?st) (appointment_data ?st))))
          @ field_question (hd (missing_fields (appointment_data (fst ?r))))"
    using one_question_for_first_missing [OF h1 h2] .
  then have "response (fst ?r) = (''Phone number recorded: 5551234567'' @ nl
        @ ''Email recorded: john.doe@example.com'' @ nl @ nl)
        @ ''Could you please provide your full name?''"
    by (simp only: p m a q)
  then have "response (fst ?r) = ''Phone number recorded: 5551234567'' @ nl
        @ ''Email recorded: john.doe@example.com'' @ nl @ nl
        @ ''Could you please provide your full name?''"
    by (simp only: append_assoc)
  with m t show ?thesis by blast
qed

lemma utterance_phone:
  "findall_first phone_pattern email_phone_utterance = Some ''555-123-4567''"
  by code_simp

lemma utterance_phone_valid: "validate_phone ''555-123-4567'' = Valid ''5551234567''"
  by code_simp

lemma utterance_email:
  "findall_first email_pattern email_phone_utterance = Some ''john.doe@example.com''"
  by code_simp

lemma utterance_date_rules:
  "strip (lower email_phone_utterance) \<noteq> ''today''
   \<and> strip (lower email_phone_utterance) \<noteq> ''tomorrow''
   \<and> \<not> contains ''next week'' (strip (lower email_phone_utterance))
   \<and> \<not> contains ''next month'' (strip (lower email_phone_utterance))
   \<and> \<not> names_weekday 0 (strip (lower email_phone_utterance))
   \<and> \<not> names_weekday 1 (strip (lower email_phone_utterance))
   \<and> \<not> names_weekday 2 (strip (lower email_phone_utterance))
   \<and> \<not> names_weekday 3 (strip (lower email_phone_utterance))
   \<and> \<not> names_weekday 4 (strip (lower email_phone_utterance))
   \<and> \<not> names_weekday 5 (strip (lower email_phone_utterance))
   \<and> \<not> names_weekday 6 (strip (lower email_phone_utterance))
   \<and> \<not> contains ''in'' (strip (lower email_phone_utterance))"
  by code_simp

lemma utterance_target:
  "target_date e email_phone_utterance = parse_fuzzy e email_phone_utterance"
  using utterance_date_rules by (simp add: target_date_chain Let_def)

text \<open>
  Claim C4. On the utterance \<open>Email is john.doe@example.com and phone 555-123-4567\<close>
  with only the name recorded, when the email checker accepts the address and the fuzzy
  date parser fails on the utterance, one turn records the phone number and the email
  address; date is the only field still missing and the question asks for it.
\<close>

theorem email_and_phone_in_one_turn:
  assumes "appointment_data state = [''name'' \<mapsto> ''John Doe'']"
    and "user_input state = email_phone_utterance"
    and "validate_email e ''john.doe@example.com'' = Inr addr" and "addr \<noteq> []"
    and "parse_fuzzy e email_phone_utterance = Inl x"
  shows "handle_appointment_booking svc e log state =
           (state\<lparr>appointment_data :=
                    [''name'' \<mapsto> ''John Doe'', ''phone'' \<mapsto> ''5551234567'', ''email'' \<mapsto> addr],
                  response := ''Phone number recorded: 5551234567'' @ nl
                    @ ''Email recorded: '' @ addr @ nl @ nl @ field_question ''date'',
                  next_action := ''continue''\<rparr>, log)
     \<and> missing_fields
          [''name'' \<mapsto> ''John Doe'', ''phone'' \<mapsto> ''5551234567'', ''email'' \<mapsto> addr] = [''date'']"
proof -
  let ?u = email_phone_utterance
  let ?ad0 = "[''name'' \<mapsto> ''John Doe'']"
  let ?ad1 = "[''name'' \<mapsto> ''John Doe'', ''phone'' \<mapsto> ''5551234567'']"
  let ?ad2 = "[''name'' \<mapsto> ''John Doe'', ''phone'' \<mapsto> ''5551234567'', ''email'' \<mapsto> addr]"
  let ?p1 = "[''Phone number recorded: 5551234567'']"
  let ?p2 = "[''Phone number recorded: 5551234567'', ''Email recorded: '' @ addr]"
  have n: "name_step svc log ?u ?ad0 [] = (?ad0, [], log)"
    by (simp add: name_step_def field_missing_def)
  have p: "phone_step ?u ?ad0 parts = (?ad1, parts @ ?p1)" for parts
    by (simp add: phone_step_def field_missing_def utterance_phone utterance_phone_valid)
  have m: "email_step e ?u ?ad1 parts = (?ad2, parts @ [''Email recorded: '' @ addr])" for parts
    by (simp add: email_step_def field_missing_def utterance_email validate_email_address_def
        assms(3))
  have d: "date_step e ?u ?ad2 parts = (?ad2, parts)" for parts
    by (simp add: date_step_def field_missing_def extract_date_from_natural_language_def
        utterance_target assms(5))
  have x: "extract_fields svc e log ?u ?ad0 = (?ad2, ?p2, log)"
    by (simp add: extract_fields_def n p m d)
  have m0: "missing_fields ?ad0 \<noteq> []"
    by (simp add: missing_fields_def required_fields_def field_missing_def)
  have m2: "missing_fields ?ad2 = [''date'']"
    using assms(4) by (simp add: missing_fields_def required_fields_def field_missing_def)
  have a: "acknowledgments ?p2 = ''Phone number recorded: 5551234567'' @ nl
      @ ''Email recorded: '' @ addr @ nl @ nl"
    by (simp add: acknowledgments_def)
  have q: "question [''date''] = field_question ''date''"
    by (simp add: question_def field_question_def)
  have "handle_appointment_booking svc e log state =
      (state\<lparr>appointment_data := ?ad2, response := acknowledgments ?p2 @ question [''date''],
             next_action := ''continue''\<rparr>, log)"
    using m0 by (simp add: handle_appointment_booking_def Let_def assms(1,2) x m2)
  then show ?thesis using m2 by (simp only: a q append_assoc simp_thms)
qed

theorem email_and_phone_in_one_turn_witness:
  "map (appointment_data (fst (handle_appointment_booking unreachable (calendar_env 739257) []
          (initial_state email_phone_utterance [''name'' \<mapsto> ''John Doe''] [] []))))
      required_fields
     = [Some ''John Doe'', Some ''5551234567'', Some ''john.doe@example.com'', None]
   \<and> next_action (fst (handle_appointment_booking unreachable (calendar_env 739257) []
          (initial_state email_phone_utterance [''name'' \<mapsto> ''John Doe''] [] [])))
     = ''continue''
   \<and> response (fst (handle_appointment_booking unreachable (calendar_env 739257) []
          (initial_state email_phone_utterance [''name'' \<mapsto> ''John Doe''] [] [])))
     = ''Phone number recorded: 5551234567'' @ nl
        @ ''Email recorded: john.doe@example.com'' @ nl @ nl @ field_question ''date''"
proof -
  let ?st = "initial_state email_phone_utterance [''name'' \<mapsto> ''John Doe''] [] []"
  let ?e = "calendar_env 739257"
  have h1: "appointment_data ?st = [''name'' \<mapsto> ''John Doe'']"
    by (simp add: initial_state_def)
  have h2: "user_input ?st = email_phone_utterance"
    by (simp add: initial_state_def)
  have h3: "validate_email ?e ''john.doe@example.com'' = Inr ''john.doe@example.com''"
    by (simp add: calendar_env_def)
  have h4: "''john.doe@example.com'' \<noteq> []"
    by simp
  have h5: "parse_fuzzy ?e email_phone_utterance = Inl ParserError"
    by (simp add: calendar_env_def)
  show ?thesis
    using email_and_phone_in_one_turn [OF h1 h2 h3 h4 h5, of unreachable "[]"]
    by (simp add: required_fields_def)
qed

end
